theory Spec2Isabelle
  imports Main "HOL-Library.AList" "HOL-Library.Multiset"
begin

section \<open>Values, documents and exceptions\<close>

text \<open>
  A BSON object identifier is held by its 24-digit lower-case hexadecimal rendering
  (what \<^verbatim>\<open>str(ObjectId)\<close> returns); a datetime by its ISO-8601 rendering (what
  \<^verbatim>\<open>datetime.isoformat()\<close> returns). A \<open>char\<close> stands for a code point below 256.
\<close>

datatype ObjectId = ObjectId (hex: string)

datatype datetime = DateTime (isoformat: string)

datatype bson = VStr string | VOid ObjectId | VDate datetime | VBool bool | VNull

text \<open>A Python \<^verbatim>\<open>dict\<close> with string keys, in insertion order; keys are distinct.\<close>

type_synonym dict = "(string \<times> bson) list"

text \<open>
  The exceptions that occur: FastAPI's \<^verbatim>\<open>HTTPException(status_code, detail)\<close>, Starlette's
  \<^verbatim>\<open>WebSocketDisconnect(code)\<close>, and any other subclass of \<^verbatim>\<open>Exception\<close>, by its name.
\<close>

datatype exn = HTTPException nat string | WebSocketDisconnect nat | Exception string

subsection \<open>\<^verbatim>\<open>bson.ObjectId(id_str)\<close> and \<^verbatim>\<open>oid\<close> (main.py, lines 45-49)\<close>

definition hexdigit :: "char \<Rightarrow> bool" where
  "hexdigit c \<longleftrightarrow> c \<in> set ''0123456789abcdefABCDEF''"

definition lower :: "char \<Rightarrow> char" where
  "lower c = (if c \<in> set ''ABCDEF'' then char_of (of_char c + (32::nat)) else c)"

text \<open>ASCII whitespace: space, tab, line feed, vertical tab, form feed, carriage return.\<close>

definition isspace :: "char \<Rightarrow> bool" where
  "isspace c \<longleftrightarrow> c \<in> set [CHR 0x20, CHR 0x09, CHR 0x0A, CHR 0x0B, CHR 0x0C, CHR 0x0D]"

text \<open>
  \<^verbatim>\<open>bytes.fromhex\<close>, giving the bytes by their lower-case hexadecimal digits: whitespace
  before a pair of digits and at the end is skipped, the two digits of a pair are adjacent,
  anything else raises \<^verbatim>\<open>ValueError\<close> (here \<open>None\<close>).
\<close>

fun fromhex :: "string \<Rightarrow> string option" where
  "fromhex [] = Some []"
| "fromhex [c] = (if isspace c then Some [] else None)"
| "fromhex (c # d # rest) =
     (if isspace c then fromhex (d # rest)
      else if hexdigit c \<and> hexdigit d
           then map_option (\<lambda>h. lower c # lower d # h) (fromhex rest)
           else None)"

text \<open>
  The constructor applied to a string: the length must be 24 and \<^verbatim>\<open>bytes.fromhex\<close> must
  accept the string; anything else raises \<^verbatim>\<open>InvalidId\<close>. Since \<^verbatim>\<open>fromhex\<close> skips
  whitespace, an accepted string may yield fewer than twelve bytes.
\<close>

definition ObjectId_of_str :: "string \<Rightarrow> exn + ObjectId" where
  "ObjectId_of_str id_str =
     (if length id_str = 24
      then (case fromhex id_str of
              Some h \<Rightarrow> Inr (ObjectId h)
            | None \<Rightarrow> Inl (Exception ''InvalidId''))
      else Inl (Exception ''InvalidId''))"

definition oid :: "string \<Rightarrow> exn + ObjectId" where
  "oid id_str =
     (case ObjectId_of_str id_str of
        Inr x \<Rightarrow> Inr x
      | Inl e \<Rightarrow> Inl (HTTPException 400 ''Invalid ID format''))"

text \<open>What the generator of identifiers produces: 24 lower-case hexadecimal digits.\<close>

definition wf_ObjectId :: "ObjectId \<Rightarrow> bool" where
  "wf_ObjectId x \<longleftrightarrow>
     length (hex x) = 24 \<and> list_all (\<lambda>c. c \<in> set ''0123456789abcdef'') (hex x)"

subsection \<open>\<^verbatim>\<open>ObjectIdEncoder.encode_doc\<close> (main.py, lines 27-38)\<close>

text \<open>
  One round of the loop over \<^verbatim>\<open>list(d.items())\<close>: the snapshot's pair \<open>(k, v)\<close> decides,
  the assignment goes to the live dict \<open>d\<close>.
\<close>

definition encode_item :: "string \<times> bson \<Rightarrow> dict \<Rightarrow> dict" where
  "encode_item kv d =
     (case kv of (k, v) \<Rightarrow>
        let d1 = (case v of VOid x \<Rightarrow> AList.update k (VStr (hex x)) d | _ \<Rightarrow> d)
        in (case v of VDate t \<Rightarrow> AList.update k (VStr (isoformat t)) d1 | _ \<Rightarrow> d1))"

text \<open>
  \<open>None\<close> and the empty dict are falsy and returned as they are (the empty dict is the
  argument itself, not a copy). Otherwise a copy is made, an \<^verbatim>\<open>_id\<close> that is an
  ObjectId is popped and stored as string under \<^verbatim>\<open>id\<close>, and the loop runs.
\<close>

definition encode_doc :: "dict option \<Rightarrow> dict option" where
  "encode_doc doc =
     (case doc of
        None \<Rightarrow> None
      | Some [] \<Rightarrow> Some []
      | Some d0 \<Rightarrow>
          let d = (case map_of d0 ''_id'' of
                     Some (VOid x) \<Rightarrow> AList.update ''id'' (VStr (hex x)) (AList.delete ''_id'' d0)
                   | _ \<Rightarrow> d0)
          in Some (fold encode_item d d))"

subsection \<open>\<^verbatim>\<open>json.dumps\<close> with its defaults\<close>

definition hexchar :: "nat \<Rightarrow> char" where
  "hexchar n = ''0123456789abcdef'' ! (n mod 16)"

text \<open>
  \<^verbatim>\<open>ensure_ascii\<close> is on: the quote and the backslash are escaped, the five short escapes
  are used, printable ASCII is kept, every other code point becomes a four-digit escape.
\<close>

definition escape_char :: "char \<Rightarrow> string" where
  "escape_char c =
     (if c = CHR 0x22 then [CHR 0x5C, CHR 0x22]
      else if c = CHR 0x5C then [CHR 0x5C, CHR 0x5C]
      else if c = CHR 0x0A then [CHR 0x5C, CHR ''n'']
      else if c = CHR 0x0D then [CHR 0x5C, CHR ''r'']
      else if c = CHR 0x09 then [CHR 0x5C, CHR ''t'']
      else if c = CHR 0x08 then [CHR 0x5C, CHR ''b'']
      else if c = CHR 0x0C then [CHR 0x5C, CHR ''f'']
      else if 32 \<le> (of_char c :: nat) \<and> (of_char c :: nat) \<le> 126 then [c]
      else [CHR 0x5C, CHR ''u'', CHR ''0'', CHR ''0'',
            hexchar (of_char c div 16), hexchar (of_char c)])"

definition json_str :: "string \<Rightarrow> string" where
  "json_str s = CHR 0x22 # concat (map escape_char s) @ [CHR 0x22]"

text \<open>An ObjectId or a datetime is not serializable: \<^verbatim>\<open>json.dumps\<close> raises \<^verbatim>\<open>TypeError\<close>.\<close>

fun json_value :: "bson \<Rightarrow> exn + string" where
  "json_value (VStr s) = Inr (json_str s)"
| "json_value (VBool b) = Inr (if b then ''true'' else ''false'')"
| "json_value VNull = Inr ''null''"
| "json_value (VOid x) = Inl (Exception ''TypeError'')"
| "json_value (VDate t) = Inl (Exception ''TypeError'')"

fun json_items :: "dict \<Rightarrow> exn + string list" where
  "json_items [] = Inr []"
| "json_items ((k, v) # rest) =
     (case json_value v of
        Inl e \<Rightarrow> Inl e
      | Inr sv \<Rightarrow>
          (case json_items rest of
             Inl e \<Rightarrow> Inl e
           | Inr xs \<Rightarrow> Inr ((json_str k @ '': '' @ sv) # xs)))"

fun join :: "string \<Rightarrow> string list \<Rightarrow> string" where
  "join sep [] = []"
| "join sep [x] = x"
| "join sep (x # y # ys) = x @ sep @ join sep (y # ys)"

definition json_dumps :: "dict \<Rightarrow> exn + string" where
  "json_dumps data =
     (case json_items data of
        Inl e \<Rightarrow> Inl e
      | Inr xs \<Rightarrow> Inr (''{'' @ join '', '' xs @ ''}''))"

section \<open>Schemas (schemas.py)\<close>

datatype msg_type = Text | System

definition str_of_type :: "msg_type \<Rightarrow> string" where
  "str_of_type ty = (case ty of Text \<Rightarrow> ''text'' | System \<Rightarrow> ''system'')"

record Message =
  ticket_id :: string
  sender_email :: string
  content :: string
  type :: msg_type

text \<open>\<^verbatim>\<open>Message.model_dump()\<close>: the fields in declaration order.\<close>

definition model_dump :: "Message \<Rightarrow> dict" where
  "model_dump m =
     [(''ticket_id'', VStr (ticket_id m)),
      (''sender_email'', VStr (sender_email m)),
      (''content'', VStr (content m)),
      (''type'', VStr (str_of_type (type m)))]"

text \<open>\<^verbatim>\<open>TicketUpdate\<close> (main.py, lines 171-176): every field optional.\<close>

record TicketUpdate =
  title :: "string option"
  description :: "string option"
  status :: "string option"
  priority :: "string option"
  assigned_to :: "string option"

section \<open>The state of the service\<close>

text \<open>
  A connection handle is its object identity (Starlette compares connections by identity).
  The state holds the collections of the document store by name, the registry
  \<^verbatim>\<open>_ws_manager.active_connections\<close>, and the network: for each handle the exception that
  \<^verbatim>\<open>accept\<close> would raise now, if any (a failing handshake, or Starlette's \<^verbatim>\<open>RuntimeError\<close>
  for a handle that has been accepted already), which handles fail on sending, and the
  text frames delivered so far, oldest first.
\<close>

type_synonym ws = nat

record state =
  db :: "string \<Rightarrow> dict list"
  active_connections :: "string \<rightharpoonup> ws list"
  accept_error :: "ws \<Rightarrow> exn option"
  send_error :: "ws \<Rightarrow> exn option"
  wire :: "(ws \<times> string) list"

text \<open>\<^verbatim>\<open>active_connections.get(ticket_id, [])\<close>.\<close>

definition listeners :: "state \<Rightarrow> string \<Rightarrow> ws list" where
  "listeners s tid = (case active_connections s tid of None \<Rightarrow> [] | Some conns \<Rightarrow> conns)"

text \<open>
  \<^verbatim>\<open>await websocket.accept()\<close>: a connection is accepted once; after a successful accept
  every further accept of the same handle raises \<^verbatim>\<open>RuntimeError\<close>.
\<close>

definition accept :: "ws \<Rightarrow> state \<Rightarrow> exn + state" where
  "accept w s =
     (case accept_error s w of
        Some e \<Rightarrow> Inl e
      | None \<Rightarrow> Inr (s\<lparr>accept_error := (accept_error s)(w := Some (Exception ''RuntimeError''))\<rparr>))"

text \<open>\<^verbatim>\<open>await websocket.send_text(data)\<close>.\<close>

definition send_text :: "ws \<Rightarrow> string \<Rightarrow> state \<Rightarrow> exn + state" where
  "send_text w data s =
     (case send_error s w of
        Some e \<Rightarrow> Inl e
      | None \<Rightarrow> Inr (s\<lparr>wire := wire s @ [(w, data)]\<rparr>))"

section \<open>The document store\<close>

text \<open>
  Modelled from the spec: the module \<^verbatim>\<open>database\<close> (\<^verbatim>\<open>db\<close>, \<^verbatim>\<open>create_document\<close>) is not
  among the sources. The spec's data model gives a stored message its identifier, the
  fields of the schema and a creation timestamp; \<^verbatim>\<open>create_document\<close> appends that document
  to the named collection and returns the identifier as a string. The identifier the store
  generates and the clock are inputs.
\<close>

definition new_document :: "ObjectId \<Rightarrow> datetime \<Rightarrow> dict \<Rightarrow> dict" where
  "new_document new_id now data = (''_id'', VOid new_id) # data @ [(''created_at'', VDate now)]"

definition create_document :: "string \<Rightarrow> dict \<Rightarrow> ObjectId \<Rightarrow> datetime \<Rightarrow> state \<Rightarrow> string \<times> state" where
  "create_document collection_name data new_id now s =
     (hex new_id,
      s\<lparr>db := (db s)(collection_name := db s collection_name @ [new_document new_id now data])\<rparr>)"

text \<open>\<^verbatim>\<open>collection.find_one({"_id": x})\<close>: the first document with that identifier.\<close>

definition find_one :: "dict list \<Rightarrow> ObjectId \<Rightarrow> dict option" where
  "find_one coll x = find (\<lambda>d. map_of d ''_id'' = Some (VOid x)) coll"

text \<open>
  \<^verbatim>\<open>collection.update_one({"_id": x}, {"$set": updates})\<close>: the first document with that
  identifier gets the fields; the count of matched documents is returned.
\<close>

fun update_one :: "dict list \<Rightarrow> ObjectId \<Rightarrow> dict \<Rightarrow> dict list \<times> nat" where
  "update_one [] x updates = ([], 0)"
| "update_one (d # ds) x updates =
     (if map_of d ''_id'' = Some (VOid x)
      then (fold (\<lambda>(k, v). AList.update k v) updates d # ds, 1)
      else (case update_one ds x updates of (ds', n) \<Rightarrow> (d # ds', n)))"

section \<open>The WebSocket manager (main.py, lines 219-238)\<close>

text \<open>
  \<^verbatim>\<open>connect\<close>: a handshake that raises leaves the registry as it was; otherwise the handle
  is appended to the ticket's list, which \<^verbatim>\<open>setdefault\<close> creates when the key is new.
\<close>

definition connect :: "string \<Rightarrow> ws \<Rightarrow> state \<Rightarrow> exn + state" where
  "connect tid websocket s =
     (case accept websocket s of
        Inl e \<Rightarrow> Inl e
      | Inr s1 \<Rightarrow>
          Inr (s1\<lparr>active_connections :=
                 (active_connections s1)(tid \<mapsto> listeners s1 tid @ [websocket])\<rparr>))"

text \<open>
  \<^verbatim>\<open>disconnect\<close>: \<^verbatim>\<open>list.remove\<close> takes out the first occurrence, and only when the handle
  is in the list; the default \<^verbatim>\<open>[]\<close> of \<^verbatim>\<open>get\<close> is never stored.
\<close>

definition disconnect :: "string \<Rightarrow> ws \<Rightarrow> state \<Rightarrow> state" where
  "disconnect tid websocket s =
     (let conns = listeners s tid
      in if websocket \<in> set conns
         then s\<lparr>active_connections := (active_connections s)(tid \<mapsto> remove1 websocket conns)\<rparr>
         else s)"

text \<open>
  \<^verbatim>\<open>safe_send\<close>: serialization and sending are inside the \<^verbatim>\<open>try\<close>; every exception
  is swallowed.
\<close>

definition safe_send :: "ws \<Rightarrow> dict \<Rightarrow> state \<Rightarrow> state" where
  "safe_send websocket data s =
     (case json_dumps data of
        Inl e \<Rightarrow> s
      | Inr frame \<Rightarrow>
          (case send_text websocket frame s of
             Inl e \<Rightarrow> s
           | Inr s' \<Rightarrow> s'))"

section \<open>Registry events\<close>

text \<open>
  What the handlers of the ticket stream do to the registry: Subscribe is \<^verbatim>\<open>connect\<close>
  at the start of a handler (a handshake that raises goes to the connecting client and
  registers nothing), Unsubscribe is \<^verbatim>\<open>disconnect\<close> when the handler's loop ends by
  \<^verbatim>\<open>WebSocketDisconnect\<close>. \<open>apply_op\<close> also tells whether the operation returned
  normally.
\<close>

datatype reg_op = Subscribe ws | Unsubscribe ws

fun apply_op :: "string \<Rightarrow> reg_op \<Rightarrow> state \<Rightarrow> bool \<times> state" where
  "apply_op tid (Subscribe w) s =
     (case connect tid w s of Inl e \<Rightarrow> (False, s) | Inr s' \<Rightarrow> (True, s'))"
| "apply_op tid (Unsubscribe w) s = (True, disconnect tid w s)"

definition run_events :: "(string \<times> reg_op) list \<Rightarrow> state \<Rightarrow> state" where
  "run_events evs s = fold (\<lambda>(tid, op) t. snd (apply_op tid op t)) evs s"

section \<open>Messages (main.py, lines 193-208)\<close>

text \<open>
  One round of the broadcast loop of \<^verbatim>\<open>post_message\<close> (lines 201-207). The document is
  encoded again and the discriminator added. On \<open>None\<close> the assignment
  \<^verbatim>\<open>payload["event"]\<close> raises, which the \<^verbatim>\<open>try\<close> swallows. An empty document is returned
  by \<^verbatim>\<open>encode_doc\<close> uncopied, so the assignment changes the document itself; the round
  therefore returns the document.
\<close>

definition broadcast_round :: "ws \<Rightarrow> dict option \<Rightarrow> state \<Rightarrow> dict option \<times> state" where
  "broadcast_round websocket doc s =
     (case encode_doc doc of
        None \<Rightarrow> (doc, s)
      | Some p \<Rightarrow>
          let payload = AList.update ''event'' (VStr ''new_message'') p
          in (if doc = Some [] then Some payload else doc, safe_send websocket payload s))"

text \<open>
  \<^verbatim>\<open>post_message\<close> is a plain \<^verbatim>\<open>def\<close>: it runs in a worker thread, and each round blocks
  in \<^verbatim>\<open>anyio.from_thread.run\<close> while the event loop goes on serving the ticket streams.
  A schedule lists, round by round, the registry events the event loop performs while
  that round is under way; rounds beyond the end of the schedule run undisturbed.
\<close>

type_synonym schedule = "(string \<times> reg_op) list list"

definition during :: "schedule \<Rightarrow> (string \<times> reg_op) list" where
  "during sched = (case sched of [] \<Rightarrow> [] | evs # rest \<Rightarrow> evs)"

text \<open>
  The loop \<^verbatim>\<open>for ws in _ws_manager.active_connections.get(ticket_id, [])\<close>: the iterator
  holds the list object and an index \<open>i\<close>; each step reads the list as it is then, so
  what \<^verbatim>\<open>connect\<close> appends and \<^verbatim>\<open>disconnect\<close> removes meanwhile is seen. The loop ends
  when the index has reached the length of the list. (With no entry for the ticket the
  loop runs over the default \<^verbatim>\<open>[]\<close> and makes no round.)
\<close>

function broadcast ::
  "string \<Rightarrow> nat \<Rightarrow> schedule \<Rightarrow> dict option \<Rightarrow> state \<Rightarrow> dict option \<times> state" where
  "broadcast tid i sched doc s =
     (if i < length (listeners s tid)
      then (case broadcast_round (listeners s tid ! i) doc s of
              (doc', s') \<Rightarrow>
                broadcast tid (Suc i) (tl sched) doc' (run_events (during sched) s'))
      else (doc, s))"
  by pat_completeness auto

termination
proof (relation "measure (\<lambda>(tid, i, sched, doc, s).
                    length (concat sched) + length (listeners s tid) - i)")
  show "wf (measure (\<lambda>(tid, i, sched, doc, s).
                    length (concat sched) + length (listeners s tid) - i))"
    by simp
next
  fix tid :: string and i :: nat and sched :: schedule and doc :: "dict option"
    and s :: state and doc' :: "dict option" and s' :: state
  assume lt: "i < length (listeners s tid)"
    and p: "(doc', s') = broadcast_round (listeners s tid ! i) doc s"
  have keep: "active_connections s' = active_connections s"
    using p
    by (auto simp: broadcast_round_def safe_send_def send_text_def Let_def
        split: option.splits sum.splits)
  have one: "length (listeners (snd (apply_op t op u)) tid) \<le> Suc (length (listeners u tid))"
    for t op u
    by (cases op)
      (auto simp: connect_def accept_def disconnect_def listeners_def Let_def length_remove1
        split: option.splits)
  have grow: "length (listeners (run_events evs u) tid) \<le> length (listeners u tid) + length evs"
    for evs u
    unfolding run_events_def
  proof (induction evs arbitrary: u)
    case Nil
    show ?case by simp
  next
    case (Cons ev evs)
    obtain t op where ev: "ev = (t, op)" by (cases ev)
    from Cons.IH [of "snd (apply_op t op u)"] one [of t op u]
    show ?case by (simp add: ev)
  qed
  have split: "length (concat (tl sched)) + length (during sched) = length (concat sched)"
    by (cases sched) (simp_all add: during_def)
  from keep have "listeners s' tid = listeners s tid" by (simp add: listeners_def)
  with grow [of "during sched" s'] split lt
  show "((tid, Suc i, tl sched, doc', run_events (during sched) s'), tid, i, sched, doc, s)
          \<in> measure (\<lambda>(tid, i, sched, doc, s).
                    length (concat sched) + length (listeners s tid) - i)"
    by simp
qed

declare broadcast.simps [simp del]

text \<open>
  \<^verbatim>\<open>post_message(ticket_id, msg)\<close>, with the identifier the store generates, the clock
  and the schedule of the event loop as further inputs. The result is the raised
  exception or the returned JSON value.
\<close>

definition post_message ::
  "string \<Rightarrow> Message \<Rightarrow> ObjectId \<Rightarrow> datetime \<Rightarrow> schedule \<Rightarrow> state \<Rightarrow>
   (exn + dict option) \<times> state" where
  "post_message tid msg new_id now sched s =
     (if ticket_id msg \<noteq> tid then (Inl (HTTPException 400 ''ticket_id mismatch''), s)
      else
        (case create_document ''message'' (model_dump msg) new_id now s of
           (id_str, s1) \<Rightarrow>
             (case ObjectId_of_str id_str of
                Inl e \<Rightarrow> (Inl e, s1)
              | Inr x \<Rightarrow>
                  (case broadcast tid 0 sched (find_one (db s1 ''message'') x) s1 of
                     (doc, s2) \<Rightarrow> (Inr (encode_doc doc), s2)))))"

section \<open>The ticket stream (main.py, lines 243-252)\<close>

text \<open>
  What \<^verbatim>\<open>await websocket.receive_text()\<close> yields, call by call: a text frame, or an
  exception; a close of the connection, normal or not, is \<^verbatim>\<open>WebSocketDisconnect\<close> with
  the close code.
\<close>

datatype inbound = Frame string | Raise exn

text \<open>
  How a run of the handler stands: it returned, it raised, or it is suspended in
  \<^verbatim>\<open>receive_text\<close> because no further inbound event has arrived.
\<close>

datatype outcome = Returned | Raised exn | Awaiting

text \<open>The \<^verbatim>\<open>while True\<close> loop: receive, echo.\<close>

fun receive_loop :: "ws \<Rightarrow> inbound list \<Rightarrow> state \<Rightarrow> outcome \<times> state" where
  "receive_loop websocket [] s = (Awaiting, s)"
| "receive_loop websocket (Raise e # rest) s = (Raised e, s)"
| "receive_loop websocket (Frame data # rest) s =
     (case send_text websocket data s of
        Inl e \<Rightarrow> (Raised e, s)
      | Inr s' \<Rightarrow> receive_loop websocket rest s')"

text \<open>
  \<^verbatim>\<open>ticket_ws\<close>: \<^verbatim>\<open>connect\<close> is outside the \<^verbatim>\<open>try\<close>; of what the loop raises only
  \<^verbatim>\<open>WebSocketDisconnect\<close> is caught, and the handler then unsubscribes and returns.
\<close>

definition ticket_ws :: "ws \<Rightarrow> string \<Rightarrow> inbound list \<Rightarrow> state \<Rightarrow> outcome \<times> state" where
  "ticket_ws websocket tid events s =
     (case connect tid websocket s of
        Inl e \<Rightarrow> (Raised e, s)
      | Inr s1 \<Rightarrow>
          (case receive_loop websocket events s1 of
             (Raised (WebSocketDisconnect code), s2) \<Rightarrow> (Returned, disconnect tid websocket s2)
           | (r, s2) \<Rightarrow> (r, s2)))"

section \<open>Tickets (main.py, lines 163-189)\<close>

text \<open>\<^verbatim>\<open>not doc\<close>: \<open>None\<close> and the empty dict are falsy.\<close>

definition falsy :: "dict option \<Rightarrow> bool" where
  "falsy doc \<longleftrightarrow> doc = None \<or> doc = Some []"

definition get_ticket :: "string \<Rightarrow> state \<Rightarrow> exn + dict option" where
  "get_ticket tid s =
     (case oid tid of
        Inl e \<Rightarrow> Inl e
      | Inr x \<Rightarrow>
          (let doc = find_one (db s ''ticket'') x
           in if falsy doc then Inl (HTTPException 404 ''Ticket not found'')
              else Inr (encode_doc doc)))"

text \<open>The comprehension over \<^verbatim>\<open>payload.model_dump().items()\<close> that drops the \<open>None\<close> fields.\<close>

definition updates_of :: "TicketUpdate \<Rightarrow> dict" where
  "updates_of payload =
     List.map_filter (\<lambda>(k, v). map_option (\<lambda>x. (k, VStr x)) v)
       [(''title'', title payload),
        (''description'', description payload),
        (''status'', status payload),
        (''priority'', priority payload),
        (''assigned_to'', assigned_to payload)]"

text \<open>
  \<^verbatim>\<open>update_ticket(ticket_id, payload)\<close>, with the clock as a further input. The early
  return on an empty update comes before \<^verbatim>\<open>oid\<close> is reached; \<^verbatim>\<open>oid(ticket_id)\<close> is
  evaluated as an argument, hence before \<^verbatim>\<open>update_one\<close> runs.
\<close>

definition update_ticket ::
  "string \<Rightarrow> TicketUpdate \<Rightarrow> datetime \<Rightarrow> state \<Rightarrow> (exn + dict option) \<times> state" where
  "update_ticket tid payload now s =
     (let updates = updates_of payload
      in if updates = [] then (Inr (Some [(''updated'', VBool False)]), s)
         else
           (let updates' = AList.update ''updated_at'' (VDate now) updates
            in case oid tid of
                 Inl e \<Rightarrow> (Inl e, s)
               | Inr x \<Rightarrow>
                   (case update_one (db s ''ticket'') x updates' of
                      (coll, matched_count) \<Rightarrow>
                        (let s1 = s\<lparr>db := (db s)(''ticket'' := coll)\<rparr>
                         in if matched_count = 0
                            then (Inl (HTTPException 404 ''Ticket not found''), s1)
                            else
                              (case oid tid of
                                 Inl e \<Rightarrow> (Inl e, s1)
                               | Inr y \<Rightarrow>
                                   (Inr (encode_doc (find_one (db s1 ''ticket'') y)), s1))))))"

section \<open>Observations and example data\<close>

text \<open>
  The text frame that one round of the broadcast loop hands to \<^verbatim>\<open>send_text\<close> for the
  document \<open>doc\<close> (main.py, lines 202-205 and 236), or the exception the round swallows.
\<close>

definition notification :: "dict option \<Rightarrow> exn + string" where
  "notification doc =
     (case encode_doc doc of
        None \<Rightarrow> Inl (Exception ''TypeError'')
      | Some p \<Rightarrow> json_dumps (AList.update ''event'' (VStr ''new_message'') p))"

text \<open>The text frames a connection has been sent, oldest first.\<close>

definition received :: "state \<Rightarrow> ws \<Rightarrow> string list" where
  "received s w = map snd (filter (\<lambda>(v, frame). v = w) (wire s))"

text \<open>
  The service at startup (\<^verbatim>\<open>_ws_manager = WSManager()\<close>, empty collections), on a network
  where handshakes and sends succeed.
\<close>

definition startup :: state where
  "startup =
     \<lparr>db = (\<lambda>c. []), active_connections = Map.empty, accept_error = (\<lambda>w. None),
      send_error = (\<lambda>w. None), wire = []\<rparr>"

text \<open>
  Three accepted listeners on ticket T1, of which the first has dropped: every send to it
  fails.
\<close>

definition first_drops :: state where
  "first_drops =
     startup\<lparr>active_connections := [''T1'' \<mapsto> [1, 2, 3]],
             accept_error := (\<lambda>w. if w \<in> {1, 2, 3} then Some (Exception ''RuntimeError'') else None),
             send_error := (\<lambda>w. if w = 1 then Some (Exception ''RuntimeError'') else None)\<rparr>"

text \<open>Three accepted listeners on ticket T1, of which the second fails on every send.\<close>

definition three_listeners :: state where
  "three_listeners =
     startup\<lparr>active_connections := [''T1'' \<mapsto> [1, 2, 3]],
             accept_error := (\<lambda>w. if w \<in> {1, 2, 3} then Some (Exception ''RuntimeError'') else None),
             send_error := (\<lambda>w. if w = 2 then Some (Exception ''RuntimeError'') else None)\<rparr>"

text \<open>One listener, handle 1, on ticket T1: the startup state after its \<^verbatim>\<open>connect\<close>.\<close>

definition one_listener :: state where
  "one_listener =
     startup\<lparr>active_connections := [''T1'' \<mapsto> [1]],
             accept_error := (\<lambda>w. None)(1 := Some (Exception ''RuntimeError''))\<rparr>"

definition hello :: Message where
  "hello = \<lparr>ticket_id = ''T1'', sender_email = ''a@x.com'', content = ''hello'', type = Text\<rparr>"

definition id_a :: ObjectId where
  "id_a = ObjectId ''65a1b2c3d4e5f60718293a4b''"

definition id_b :: ObjectId where
  "id_b = ObjectId ''65a1b2c3d4e5f60718293a4c''"

definition noon :: datetime where
  "noon = DateTime ''2024-01-12T12:00:00''"

text \<open>A ticket update that sets one field.\<close>

definition close_ticket :: TicketUpdate where
  "close_ticket =
     \<lparr>title = None, description = None, status = Some ''closed'', priority = None,
      assigned_to = None\<rparr>"

text \<open>
  A sequence of Subscribe and Unsubscribe operations on one ticket, run in order; the
  result is the trace, each operation with whether it returned normally, and the state.
\<close>

fun run_ops :: "string \<Rightarrow> reg_op list \<Rightarrow> state \<Rightarrow> (reg_op \<times> bool) list \<times> state" where
  "run_ops tid [] s = ([], s)"
| "run_ops tid (op # ops) s =
     (case apply_op tid op s of
        (ok, s1) \<Rightarrow> (case run_ops tid ops s1 of (tr, s2) \<Rightarrow> ((op, ok) # tr, s2)))"

text \<open>
  The spec's reading of the registry, a set per ticket, obtained by tracking the additions
  and removals: a Subscribe that returned adds the handle (one that raised has registered
  nothing), an Unsubscribe removes it.
\<close>

fun spec_track_set :: "reg_op \<times> bool \<Rightarrow> ws set \<Rightarrow> ws set" where
  "spec_track_set (Subscribe w, ok) S = (if ok then insert w S else S)"
| "spec_track_set (Unsubscribe w, ok) S = S - {w}"

text \<open>
  What holds of a ticket's list in every state the service reaches from startup: no handle
  is listed twice, and every listed handle has been accepted.
\<close>

definition registry_inv :: "state \<Rightarrow> string \<Rightarrow> bool" where
  "registry_inv s tid \<longleftrightarrow>
     distinct (listeners s tid) \<and> list_all (\<lambda>w. accept_error s w \<noteq> None) (listeners s tid)"

section \<open>Facts about the encoding\<close>

lemma lower_hexdigit:
  assumes "c \<in> set ''0123456789abcdef''"
  shows "hexdigit c" and "lower c = c" and "\<not> isspace c"
  using assms by (auto simp: hexdigit_def lower_def isspace_def)

lemma fromhex_lower_digits:
  "list_all (\<lambda>c. c \<in> set ''0123456789abcdef'') h \<Longrightarrow> even (length h) \<Longrightarrow> fromhex h = Some h"
proof (induction h rule: fromhex.induct)
  case 1
  show ?case by simp
next
  case (2 c)
  then show ?case by simp
next
  case (3 c d rest)
  from "3.prems" have c: "c \<in> set ''0123456789abcdef''" and d: "d \<in> set ''0123456789abcdef''"
    and r: "list_all (\<lambda>c. c \<in> set ''0123456789abcdef'') rest" and e: "even (length rest)"
    by simp_all
  from c have sc: "\<not> isspace c" "hexdigit c" "lower c = c" by (rule lower_hexdigit)+
  from d have sd: "hexdigit d" "lower d = d" by (rule lower_hexdigit)+
  from sc "3.IH"(2) r e sd have "fromhex rest = Some rest" by simp
  with sc sd show ?case by simp
qed

text \<open>Parsing the rendering of a generated identifier gives the identifier back.\<close>

lemma ObjectId_of_str_hex:
  assumes "wf_ObjectId x"
  shows "ObjectId_of_str (hex x) = Inr x"
proof -
  from assms have len: "length (hex x) = 24"
    and all: "list_all (\<lambda>c. c \<in> set ''0123456789abcdef'') (hex x)"
    unfolding wf_ObjectId_def by blast+
  from len have "even (length (hex x))" by simp
  with all have "fromhex (hex x) = Some (hex x)" by (rule fromhex_lower_digits)
  with len show ?thesis by (simp add: ObjectId_of_str_def)
qed

lemma encode_doc_message:
  "encode_doc (Some (new_document new_id now (model_dump msg))) =
     Some [(''ticket_id'', VStr (ticket_id msg)),
           (''sender_email'', VStr (sender_email msg)),
           (''content'', VStr (content msg)),
           (''type'', VStr (str_of_type (type msg))),
           (''created_at'', VStr (isoformat now)),
           (''id'', VStr (hex new_id))]"
  by (simp add: encode_doc_def new_document_def model_dump_def encode_item_def AList.delete_eq)

lemma notification_message:
  "\<exists>frame. notification (Some (new_document new_id now (model_dump msg))) = Inr frame"
  by (simp add: notification_def encode_doc_message json_dumps_def)

lemma safe_send_eq:
  "json_dumps data = Inr frame \<Longrightarrow>
   safe_send w data s =
     (if send_error s w = None then s\<lparr>wire := wire s @ [(w, frame)]\<rparr> else s)"
  by (simp add: safe_send_def send_text_def split: option.splits)

text \<open>One round on a non-empty document that serializes.\<close>

lemma broadcast_round_eq:
  assumes "notification (Some d) = Inr frame" and "d \<noteq> []"
  shows "broadcast_round w (Some d) s =
           (Some d, if send_error s w = None then s\<lparr>wire := wire s @ [(w, frame)]\<rparr> else s)"
proof -
  from assms(1) obtain p where p: "encode_doc (Some d) = Some p"
    and j: "json_dumps (AList.update ''event'' (VStr ''new_message'') p) = Inr frame"
    by (auto simp: notification_def split: option.splits)
  show ?thesis
    using assms(2) by (simp add: broadcast_round_def p safe_send_eq [OF j])
qed

lemma find_one_Nil: "find_one [] x = None"
  by (simp add: find_one_def)

lemma find_one_append_fresh:
  "find_one coll x = None \<Longrightarrow> map_of d ''_id'' = Some (VOid x) \<Longrightarrow>
   find_one (coll @ [d]) x = Some d"
  by (induction coll) (auto simp: find_one_def split: if_splits)

lemma wf_id_a: "wf_ObjectId id_a"
  by (simp add: wf_ObjectId_def id_a_def)

lemma wf_id_b: "wf_ObjectId id_b"
  by (simp add: wf_ObjectId_def id_b_def)

section \<open>Facts about the registry, the wire and the receive loop\<close>

lemma count_list_filter:
  "count_list (filter P xs) w = (if P w then count_list xs w else 0)"
  by (induction xs) auto

lemma count_list_pos: "w \<in> set xs \<Longrightarrow> 0 < count_list xs w"
  by (metis count_list_0_iff gr0I)

lemma received_append:
  assumes "wire s' = wire s @ map (\<lambda>v. (v, frame)) conns"
  shows "received s' w = received s w @ replicate (count_list conns w) frame"
proof -
  have "map snd (filter (\<lambda>(v, f). v = w) (map (\<lambda>v. (v, frame)) conns)) =
          replicate (count_list conns w) frame"
    by (induction conns) auto
  with assms show ?thesis by (simp add: received_def)
qed

lemma received_echo:
  "wire s' = wire s @ map (Pair w) fs \<Longrightarrow> received s' w = received s w @ fs"
  by (simp add: received_def filter_map o_def)

lemma received_others:
  "wire s' = wire s @ map (Pair w) fs \<Longrightarrow> v \<noteq> w \<Longrightarrow> received s' v = received s v"
  by (simp add: received_def)

lemma connect_Inr_iff:
  "connect tid w s = Inr s1 \<longleftrightarrow>
     accept_error s w = None \<and>
     s1 = s\<lparr>accept_error := (accept_error s)(w := Some (Exception ''RuntimeError'')),
            active_connections := (active_connections s)(tid \<mapsto> listeners s tid @ [w])\<rparr>"
  by (auto simp: connect_def accept_def listeners_def split: option.splits)

lemma connect_Inl_iff: "connect tid w s = Inl e \<longleftrightarrow> accept_error s w = Some e"
  by (auto simp: connect_def accept_def split: option.splits)

lemma listeners_connect:
  "connect t w s = Inr s1 \<Longrightarrow>
   listeners s1 t' = (if t' = t then listeners s t @ [w] else listeners s t')"
  by (auto simp: connect_Inr_iff listeners_def)

lemma connect_other_fields:
  "connect t w s = Inr s1 \<Longrightarrow>
   wire s1 = wire s \<and> db s1 = db s \<and> send_error s1 = send_error s \<and>
   accept_error s1 = (accept_error s)(w := Some (Exception ''RuntimeError''))"
  by (auto simp: connect_Inr_iff)

lemma listeners_disconnect:
  "listeners (disconnect t w s) t' = (if t' = t then remove1 w (listeners s t) else listeners s t')"
  by (auto simp: disconnect_def listeners_def Let_def remove1_idem split: option.splits)

lemma disconnect_other_fields:
  "wire (disconnect t w s) = wire s \<and> db (disconnect t w s) = db s \<and>
   send_error (disconnect t w s) = send_error s \<and> accept_error (disconnect t w s) = accept_error s"
  by (simp add: disconnect_def Let_def)

lemma disconnect_absent: "w \<notin> set (listeners s tid) \<Longrightarrow> disconnect tid w s = s"
  by (simp add: disconnect_def Let_def)

lemma apply_op_keeps:
  "wire (snd (apply_op t op s)) = wire s \<and> db (snd (apply_op t op s)) = db s \<and>
   send_error (snd (apply_op t op s)) = send_error s"
proof (cases op)
  case (Subscribe w)
  show ?thesis
  proof (cases "connect t w s")
    case (Inl e)
    with Subscribe show ?thesis by simp
  next
    case (Inr s1)
    with Subscribe connect_other_fields [OF Inr] show ?thesis by simp
  qed
next
  case (Unsubscribe w)
  then show ?thesis by (simp add: disconnect_other_fields)
qed

lemma run_events_keeps:
  "wire (run_events evs s) = wire s \<and> db (run_events evs s) = db s \<and>
   send_error (run_events evs s) = send_error s"
  unfolding run_events_def
proof (induction evs arbitrary: s)
  case Nil
  show ?case by simp
next
  case (Cons ev evs)
  obtain t op where ev: "ev = (t, op)" by (cases ev)
  from Cons.IH [of "snd (apply_op t op s)"] apply_op_keeps [of t op s]
  show ?case by (simp add: ev)
qed

lemma run_events_Nil: "run_events [] s = s"
  by (simp add: run_events_def)

lemma run_events_Cons:
  "run_events ((t, op) # evs) s = run_events evs (snd (apply_op t op s))"
  by (simp add: run_events_def)

lemma receive_loop_frames:
  "send_error s w = None \<Longrightarrow>
   receive_loop w (map Frame fs @ rest) s =
     receive_loop w rest (s\<lparr>wire := wire s @ map (Pair w) fs\<rparr>)"
  by (induction fs arbitrary: s) (simp_all add: send_text_def)

lemma receive_loop_keeps:
  "receive_loop w events s = (r, s') \<Longrightarrow>
   db s' = db s \<and> active_connections s' = active_connections s \<and>
   send_error s' = send_error s \<and> accept_error s' = accept_error s \<and>
   (\<exists>fs. wire s' = wire s @ map (Pair w) fs)"
proof (induction w events s arbitrary: r s' rule: receive_loop.induct)
  case (1 websocket s)
  then show ?case by simp
next
  case (2 websocket e rest s)
  then show ?case by simp
next
  case (3 websocket data rest s)
  show ?case
  proof (cases "send_text websocket data s")
    case (Inl e)
    with 3 show ?thesis by simp
  next
    case (Inr s1)
    then have s1: "s1 = s\<lparr>wire := wire s @ [(websocket, data)]\<rparr>"
      by (auto simp: send_text_def split: option.splits)
    from 3 Inr have "receive_loop websocket rest s1 = (r, s')" by simp
    from "3.IH" [OF Inr this] obtain fs where
      "db s' = db s1" "active_connections s' = active_connections s1"
      "send_error s' = send_error s1" "accept_error s' = accept_error s1"
      "wire s' = wire s1 @ map (Pair websocket) fs" by blast
    then show ?thesis
      unfolding s1 by (auto intro: exI [of _ "data # fs"])
  qed
qed

lemma ticket_ws_db: "db (snd (ticket_ws w tid events s)) = db s"
proof (cases "connect tid w s")
  case (Inl e)
  then show ?thesis by (simp add: ticket_ws_def)
next
  case (Inr s1)
  obtain r s2 where l: "receive_loop w events s1 = (r, s2)" by (cases "receive_loop w events s1")
  from receive_loop_keeps [OF l] connect_other_fields [OF Inr] have "db s2 = db s" by simp
  then show ?thesis
    using Inr l disconnect_other_fields [of tid w s2]
    by (auto simp: ticket_ws_def split: outcome.splits exn.splits)
qed

section \<open>Facts about the broadcast loop\<close>

lemma broadcast_stop:
  "\<not> i < length (listeners s tid) \<Longrightarrow> broadcast tid i sched doc s = (doc, s)"
  by (simp add: broadcast.simps [of tid i sched doc s])

lemma broadcast_step:
  assumes "notification (Some d) = Inr frame" and "d \<noteq> []"
    and "i < length (listeners s tid)"
  shows "broadcast tid i sched (Some d) s =
           broadcast tid (Suc i) (tl sched) (Some d)
             (run_events (during sched)
                (if send_error s (listeners s tid ! i) = None
                 then s\<lparr>wire := wire s @ [(listeners s tid ! i, frame)]\<rparr> else s))"
  using assms(3)
  by (simp add: broadcast.simps [of tid i sched "Some d" s] broadcast_round_eq [OF assms(1,2)])

text \<open>
  Whatever the schedule, the loop on a non-empty document that serializes leaves the
  document and the store alone, and everything it puts on the wire is that one frame.
\<close>

lemma broadcast_sends_one_frame:
  assumes "notification (Some d) = Inr frame" and "d \<noteq> []"
  shows "\<exists>visited s'. broadcast tid i sched (Some d) s = (Some d, s') \<and>
           wire s' = wire s @ map (\<lambda>v. (v, frame)) visited \<and> db s' = db s"
proof (induction "length (concat sched) + length (listeners s tid) - i"
    arbitrary: i sched s rule: less_induct)
  case less
  show ?case
  proof (cases "i < length (listeners s tid)")
    case False
    then have "broadcast tid i sched (Some d) s = (Some d, s)" by (rule broadcast_stop)
    then show ?thesis by (intro exI [of _ "[]"] exI [of _ s]) simp
  next
    case True
    let ?w = "listeners s tid ! i"
    let ?t = "if send_error s ?w = None then s\<lparr>wire := wire s @ [(?w, frame)]\<rparr> else s"
    let ?u = "run_events (during sched) ?t"
    have lt: "listeners ?t tid = listeners s tid" by (simp add: listeners_def)
    have one: "length (listeners (snd (apply_op t op u)) tid) \<le> Suc (length (listeners u tid))"
      for t op u
      by (cases op)
        (auto simp: connect_def accept_def disconnect_def listeners_def Let_def length_remove1
          split: option.splits)
    have grow: "length (listeners (run_events evs u) tid) \<le> length (listeners u tid) + length evs"
      for evs u
    proof (induction evs arbitrary: u)
      case Nil
      show ?case by (simp add: run_events_Nil)
    next
      case (Cons ev evs)
      obtain t op where ev: "ev = (t, op)" by (cases ev)
      from Cons.IH [of "snd (apply_op t op u)"] one [of t op u]
      show ?case by (simp add: ev run_events_Cons)
    qed
    have split: "length (concat (tl sched)) + length (during sched) = length (concat sched)"
      by (cases sched) (simp_all add: during_def)
    have "length (concat (tl sched)) + length (listeners ?u tid) - Suc i
            < length (concat sched) + length (listeners s tid) - i"
      using grow [of "during sched" ?t] split True lt by simp
    from less [OF this] obtain visited s' where
      b: "broadcast tid (Suc i) (tl sched) (Some d) ?u = (Some d, s')"
      and w: "wire s' = wire ?u @ map (\<lambda>v. (v, frame)) visited" and d: "db s' = db ?u"
      by blast
    have st: "broadcast tid i sched (Some d) s = (Some d, s')"
      using broadcast_step [OF assms True, of sched] b by simp
    have ku: "wire ?u = wire ?t" "db ?u = db ?t" using run_events_keeps [of "during sched" ?t] by simp_all
    show ?thesis
    proof (cases "send_error s ?w = None")
      case True
      with w d ku have "wire s' = wire s @ map (\<lambda>v. (v, frame)) (?w # visited)" "db s' = db s"
        by simp_all
      with st show ?thesis by blast
    next
      case False
      with w d ku have "wire s' = wire s @ map (\<lambda>v. (v, frame)) visited" "db s' = db s"
        by simp_all
      with st show ?thesis by blast
    qed
  qed
qed

text \<open>
  With nothing happening on the event loop meanwhile, the frame goes, in registration
  order, to every handle listed from the index on whose send does not fail.
\<close>

lemma broadcast_quiet:
  assumes "notification (Some d) = Inr frame" and "d \<noteq> []"
  shows "concat sched = [] \<Longrightarrow>
         broadcast tid i sched (Some d) s =
           (Some d, s\<lparr>wire := wire s @ map (\<lambda>w. (w, frame))
                        (filter (\<lambda>w. send_error s w = None) (drop i (listeners s tid)))\<rparr>)"
proof (induction "length (listeners s tid) - i" arbitrary: i sched s)
  case 0
  then have "\<not> i < length (listeners s tid)" by simp
  then show ?case by (simp add: broadcast_stop)
next
  case (Suc n)
  then have lt: "i < length (listeners s tid)" by simp
  let ?w = "listeners s tid ! i"
  let ?t = "if send_error s ?w = None then s\<lparr>wire := wire s @ [(?w, frame)]\<rparr> else s"
  from Suc.prems have q: "during sched = []" "concat (tl sched) = []"
    by (cases sched; simp add: during_def)+
  have keep: "listeners ?t tid = listeners s tid" "send_error ?t = send_error s"
    by (simp_all add: listeners_def)
  from Suc.hyps(2) keep have n: "n = length (listeners ?t tid) - Suc i" by simp
  have dr: "drop i (listeners s tid) = ?w # drop (Suc i) (listeners s tid)"
    using lt by (simp add: Cons_nth_drop_Suc)
  have "broadcast tid i sched (Some d) s = broadcast tid (Suc i) (tl sched) (Some d) ?t"
    using broadcast_step [OF assms lt, of sched] q by (simp add: run_events_Nil)
  also have "\<dots> = (Some d, ?t\<lparr>wire := wire ?t @ map (\<lambda>w. (w, frame))
                        (filter (\<lambda>w. send_error ?t w = None) (drop (Suc i) (listeners ?t tid)))\<rparr>)"
    by (rule Suc.hyps(1) [OF n q(2)])
  also have "\<dots> = (Some d, s\<lparr>wire := wire s @ map (\<lambda>w. (w, frame))
                        (filter (\<lambda>w. send_error s w = None) (drop i (listeners s tid)))\<rparr>)"
    unfolding dr keep by simp
  finally show ?case .
qed

section \<open>Facts about the message handler\<close>

text \<open>The handler on matching identifiers, a generated identifier and a fresh one.\<close>

lemma post_message_unfold:
  assumes "ticket_id msg = tid" and "wf_ObjectId new_id"
    and "find_one (db s ''message'') new_id = None"
  shows "post_message tid msg new_id now sched s =
           (case broadcast tid 0 sched (Some (new_document new_id now (model_dump msg)))
                   (s\<lparr>db := (db s)(''message'' :=
                          db s ''message'' @ [new_document new_id now (model_dump msg)])\<rparr>) of
              (doc, s2) \<Rightarrow> (Inr (encode_doc doc), s2))"
proof -
  let ?d = "new_document new_id now (model_dump msg)"
  have id: "map_of ?d ''_id'' = Some (VOid new_id)" by (simp add: new_document_def)
  show ?thesis
    using assms
    by (simp add: post_message_def create_document_def ObjectId_of_str_hex
        find_one_append_fresh [OF _ id])
qed

lemma post_message_any_schedule:
  assumes "ticket_id msg = tid" and "wf_ObjectId new_id"
    and "find_one (db s ''message'') new_id = None"
    and "notification (Some (new_document new_id now (model_dump msg))) = Inr frame"
  shows "\<exists>visited s'.
           post_message tid msg new_id now sched s =
             (Inr (encode_doc (Some (new_document new_id now (model_dump msg)))), s') \<and>
           wire s' = wire s @ map (\<lambda>v. (v, frame)) visited \<and>
           db s' = (db s)(''message'' :=
                      db s ''message'' @ [new_document new_id now (model_dump msg)])"
proof -
  let ?d = "new_document new_id now (model_dump msg)"
  let ?s1 = "s\<lparr>db := (db s)(''message'' := db s ''message'' @ [?d])\<rparr>"
  have ne: "?d \<noteq> []" by (simp add: new_document_def)
  from broadcast_sends_one_frame [OF assms(4) ne, of tid 0 sched ?s1]
  obtain visited s' where "broadcast tid 0 sched (Some ?d) ?s1 = (Some ?d, s')"
    and "wire s' = wire ?s1 @ map (\<lambda>v. (v, frame)) visited" and "db s' = db ?s1"
    by blast
  then show ?thesis
    by (intro exI [of _ visited] exI [of _ s']) (simp add: post_message_unfold [OF assms(1-3)])
qed

lemma post_message_quiet:
  assumes "ticket_id msg = tid" and "wf_ObjectId new_id"
    and "find_one (db s ''message'') new_id = None"
    and "notification (Some (new_document new_id now (model_dump msg))) = Inr frame"
    and "concat sched = []"
  shows "post_message tid msg new_id now sched s =
           (Inr (encode_doc (Some (new_document new_id now (model_dump msg)))),
            s\<lparr>db := (db s)(''message'' :=
                      db s ''message'' @ [new_document new_id now (model_dump msg)]),
              wire := wire s @ map (\<lambda>w. (w, frame))
                                   (filter (\<lambda>w. send_error s w = None) (listeners s tid))\<rparr>)"
proof -
  let ?d = "new_document new_id now (model_dump msg)"
  have ne: "?d \<noteq> []" by (simp add: new_document_def)
  show ?thesis
    by (simp add: post_message_unfold [OF assms(1-3)] broadcast_quiet [OF assms(4) ne assms(5)]
        listeners_def)
qed

section \<open>Facts about the example states\<close>

lemma startup_fields:
  "accept_error startup = (\<lambda>w. None)"
  "send_error startup = (\<lambda>w. None)"
  "wire startup = []"
  "db startup = (\<lambda>c. [])"
  "listeners startup t = []"
  by (simp_all add: startup_def listeners_def)

lemma received_startup: "received startup w = []"
  by (simp add: startup_def received_def)

lemma connect_startup: "connect ''T1'' 1 startup = Inr one_listener"
  by (simp add: connect_Inr_iff one_listener_def startup_fields) (simp add: startup_def)

lemma one_listener_fields:
  "listeners one_listener ''T1'' = [1]"
  "listeners one_listener ''T2'' = []"
  "send_error one_listener = (\<lambda>w. None)"
  "wire one_listener = []"
  "db one_listener = (\<lambda>c. [])"
  "accept_error one_listener 1 = Some (Exception ''RuntimeError'')"
  by (simp_all add: one_listener_def startup_def listeners_def)

lemma three_listeners_fields:
  "listeners three_listeners ''T1'' = [1, 2, 3]"
  "send_error three_listeners = (\<lambda>w. if w = 2 then Some (Exception ''RuntimeError'') else None)"
  "wire three_listeners = []"
  "db three_listeners = (\<lambda>c. [])"
  "accept_error three_listeners 4 = None"
  by (simp_all add: three_listeners_def startup_def listeners_def)

lemma first_drops_fields:
  "listeners first_drops ''T1'' = [1, 2, 3]"
  "send_error first_drops = (\<lambda>w. if w = 1 then Some (Exception ''RuntimeError'') else None)"
  "wire first_drops = []"
  "db first_drops = (\<lambda>c. [])"
  by (simp_all add: first_drops_def startup_def listeners_def)

text \<open>A string of 22 digits and two spaces is accepted, as an identifier of eleven bytes.\<close>

lemma ObjectId_of_str_whitespace:
  "ObjectId_of_str ''65a1b2c3d4e5f60718293a  '' = Inr (ObjectId ''65a1b2c3d4e5f60718293a'')"
  by (simp add: ObjectId_of_str_def hexdigit_def isspace_def lower_def)

text \<open>
  The publish of \<open>hello\<close> in \<open>first_drops\<close>, while the handler of the dropped handle 1
  unsubscribes it during the first round: the list shrinks to \<open>[2, 3]\<close>, the iterator
  moves on to index 1, and handle 2 is passed over.
\<close>

lemma first_drops_publish:
  assumes "notification (Some (new_document id_a noon (model_dump hello))) = Inr frame"
  shows "\<exists>s'. post_message ''T1'' hello id_a noon [[(''T1'', Unsubscribe 1)]] first_drops =
           (Inr (encode_doc (Some (new_document id_a noon (model_dump hello)))), s') \<and>
         wire s' = [(3, frame)] \<and> listeners s' ''T1'' = [2, 3] \<and>
         send_error s' = send_error first_drops \<and>
         db s' ''message'' = [new_document id_a noon (model_dump hello)]"
proof -
  let ?d = "new_document id_a noon (model_dump hello)"
  have t1: "ticket_id hello = ''T1''" by (simp add: hello_def)
  have fa: "find_one (db first_drops ''message'') id_a = None"
    by (simp add: first_drops_fields find_one_Nil)
  have ne: "?d \<noteq> []" by (simp add: new_document_def)
  let ?s1 = "first_drops\<lparr>db := (db first_drops)(''message'' := db first_drops ''message'' @ [?d])\<rparr>"
  let ?s2 = "disconnect ''T1'' 1 ?s1"
  let ?s3 = "?s2\<lparr>wire := wire ?s2 @ [(3, frame)]\<rparr>"
  have l1: "listeners ?s1 ''T1'' = [1, 2, 3]"
    and e1: "send_error ?s1 = (\<lambda>w. if w = 1 then Some (Exception ''RuntimeError'') else None)"
    by (simp_all add: listeners_def first_drops_def startup_def)
  have l2: "listeners ?s2 ''T1'' = [2, 3]"
    by (simp add: listeners_disconnect l1)
  have e2: "send_error ?s2 = send_error first_drops"
    by (simp add: disconnect_other_fields)
  have l3: "listeners ?s3 ''T1'' = [2, 3]" using l2 by (simp add: listeners_def)
  have "broadcast ''T1'' 0 [[(''T1'', Unsubscribe 1)]] (Some ?d) ?s1 =
          broadcast ''T1'' (Suc 0) [] (Some ?d) ?s2"
    using broadcast_step [OF assms ne, of 0 ?s1 "''T1''" "[[(''T1'', Unsubscribe 1)]]"] l1 e1
    by (simp add: during_def run_events_Cons run_events_Nil)
  also have "\<dots> = broadcast ''T1'' (Suc (Suc 0)) [] (Some ?d) ?s3"
    using broadcast_step [OF assms ne, of "Suc 0" ?s2 "''T1''" "[]"] l2 e2
    by (simp add: during_def run_events_Nil first_drops_fields)
  also have "\<dots> = (Some ?d, ?s3)"
    using l3 by (intro broadcast_stop) simp
  finally have b: "broadcast ''T1'' 0 [[(''T1'', Unsubscribe 1)]] (Some ?d) ?s1 = (Some ?d, ?s3)" .
  have p: "post_message ''T1'' hello id_a noon [[(''T1'', Unsubscribe 1)]] first_drops =
             (Inr (encode_doc (Some ?d)), ?s3)"
    unfolding post_message_unfold [OF t1 wf_id_a fa] b by simp
  have "wire ?s3 = [(3, frame)]"
    by (simp add: disconnect_other_fields first_drops_fields)
  moreover have "send_error ?s3 = send_error first_drops"
    by (simp add: disconnect_other_fields)
  moreover have "db ?s3 ''message'' = [?d]"
    by (simp add: disconnect_other_fields first_drops_fields)
  ultimately show ?thesis using p l3 by blast
qed

text \<open>
  Such an identifier passes \<^verbatim>\<open>oid\<close>, so the ticket paths go on to the store with it:
  \<^verbatim>\<open>get_ticket\<close> finds nothing and answers 404.
\<close>

lemma get_ticket_whitespace_id:
  "get_ticket ''65a1b2c3d4e5f60718293a  '' startup = Inl (HTTPException 404 ''Ticket not found'')"
  by (simp add: get_ticket_def oid_def ObjectId_of_str_whitespace startup_fields find_one_Nil
      falsy_def)

section \<open>Facts about sequences of registry operations\<close>

lemma apply_op_inv:
  assumes "registry_inv s tid" and "apply_op tid op s = (ok, s1)"
  shows "registry_inv s1 tid \<and>
         set (listeners s1 tid) = spec_track_set (op, ok) (set (listeners s tid)) \<and>
         (\<forall>w. op = Unsubscribe w \<longrightarrow> ok)"
proof (cases op)
  case (Subscribe w)
  show ?thesis
  proof (cases "connect tid w s")
    case (Inl e)
    with Subscribe assms show ?thesis by auto
  next
    case (Inr s')
    with Subscribe assms(2) have ok: "ok" and s1: "s1 = s'" by auto
    from Inr have a: "accept_error s w = None" by (simp add: connect_Inr_iff)
    from assms(1) have d: "distinct (listeners s tid)"
      and acc: "\<forall>v \<in> set (listeners s tid). accept_error s v \<noteq> None"
      by (simp_all add: registry_inv_def list_all_iff)
    from a acc have n: "w \<notin> set (listeners s tid)" by auto
    have l: "listeners s1 tid = listeners s tid @ [w]"
      unfolding s1 by (simp add: listeners_connect [OF Inr])
    have ae: "accept_error s1 = (accept_error s)(w := Some (Exception ''RuntimeError''))"
      unfolding s1 using connect_other_fields [OF Inr] by simp
    have "registry_inv s1 tid"
      using d n acc by (auto simp: registry_inv_def list_all_iff l ae)
    with Subscribe ok l show ?thesis by simp
  qed
next
  case (Unsubscribe w)
  with assms(2) have ok: "ok" and s1: "s1 = disconnect tid w s" by auto
  from assms(1) have d: "distinct (listeners s tid)"
    and acc: "\<forall>v \<in> set (listeners s tid). accept_error s v \<noteq> None"
    by (simp_all add: registry_inv_def list_all_iff)
  have l: "listeners s1 tid = remove1 w (listeners s tid)"
    unfolding s1 by (simp add: listeners_disconnect)
  have ae: "accept_error s1 = accept_error s"
    unfolding s1 by (simp add: disconnect_other_fields)
  have "registry_inv s1 tid"
    using d acc by (auto simp: registry_inv_def list_all_iff l ae)
  moreover have "set (listeners s1 tid) = set (listeners s tid) - {w}"
    unfolding l using d by (rule set_remove1_eq)
  ultimately show ?thesis using Unsubscribe ok by simp
qed

section \<open>Claims\<close>

text \<open>
  C1. The claim is that a publish in which delivery to one connection fails still delivers
  to the N-1 others. The code does not: three listeners are registered for T1, the sends
  to handle 1 fail because its peer has dropped, and its stream handler unsubscribes it
  while the first round of the loop is under way. The request returns the persisted
  message, but of the two healthy listeners only handle 3 is sent the notification.
\<close>

theorem publish_passes_over_a_listener:
  "listeners first_drops ''T1'' = [1, 2, 3] \<and>
   send_error first_drops 1 \<noteq> None \<and> send_error first_drops 2 = None \<and>
   send_error first_drops 3 = None \<and>
   fst (post_message ''T1'' hello id_a noon [[(''T1'', Unsubscribe 1)]] first_drops) =
     Inr (encode_doc (Some (new_document id_a noon (model_dump hello)))) \<and>
   map fst (wire (snd (post_message ''T1'' hello id_a noon [[(''T1'', Unsubscribe 1)]]
                         first_drops))) = [3]"
proof -
  obtain frame where f: "notification (Some (new_document id_a noon (model_dump hello))) = Inr frame"
    using notification_message by blast
  from first_drops_publish [OF f] obtain s' where
    "post_message ''T1'' hello id_a noon [[(''T1'', Unsubscribe 1)]] first_drops =
       (Inr (encode_doc (Some (new_document id_a noon (model_dump hello)))), s')"
    and "wire s' = [(3, frame)]"
    by blast
  then show ?thesis by (simp add: first_drops_fields)
qed

text \<open>
  C2. The claim is that a publish reaches exactly the connections registered under the
  ticket. The code does not, by the same defect as in C1: in the run above handle 2 is
  registered under T1 before and after the publish and its sends succeed, yet it receives
  nothing, while handle 3 receives the notification.
\<close>

theorem registered_listener_receives_nothing:
  "2 \<in> set (listeners first_drops ''T1'') \<and>
   2 \<in> set (listeners (snd (post_message ''T1'' hello id_a noon [[(''T1'', Unsubscribe 1)]]
                              first_drops)) ''T1'') \<and>
   send_error first_drops 2 = None \<and>
   received (snd (post_message ''T1'' hello id_a noon [[(''T1'', Unsubscribe 1)]]
                    first_drops)) 2 = [] \<and>
   map Inr (received (snd (post_message ''T1'' hello id_a noon [[(''T1'', Unsubscribe 1)]]
                             first_drops)) 3) =
     [notification (Some (new_document id_a noon (model_dump hello)))]"
proof -
  obtain frame where f: "notification (Some (new_document id_a noon (model_dump hello))) = Inr frame"
    using notification_message by blast
  from first_drops_publish [OF f] obtain s' where
    "post_message ''T1'' hello id_a noon [[(''T1'', Unsubscribe 1)]] first_drops =
       (Inr (encode_doc (Some (new_document id_a noon (model_dump hello)))), s')"
    and "wire s' = [(3, frame)]" and "listeners s' ''T1'' = [2, 3]"
    by blast
  then show ?thesis by (simp add: first_drops_fields received_def f)
qed

text \<open>
  C3, as the spec states it, fails: "on every path that takes a ticket identifier, an
  identifier whose format is invalid is signaled as a client-input error and no mutation
  is attempted". \<^verbatim>\<open>post_message\<close> takes the ticket identifier as a plain string and never
  calls \<^verbatim>\<open>oid\<close>: for \<^verbatim>\<open>T1\<close>, which \<^verbatim>\<open>oid\<close> rejects, the request succeeds and a message
  document is stored.
\<close>

theorem invalid_ticket_id_accepted_by_post_message:
  "ObjectId_of_str ''T1'' = Inl (Exception ''InvalidId'') \<and>
   oid ''T1'' = Inl (HTTPException 400 ''Invalid ID format'') \<and>
   db startup ''message'' = [] \<and>
   fst (post_message ''T1'' hello id_a noon [] startup) =
     Inr (Some [(''ticket_id'', VStr ''T1''),
                (''sender_email'', VStr ''a@x.com''),
                (''content'', VStr ''hello''),
                (''type'', VStr ''text''),
                (''created_at'', VStr ''2024-01-12T12:00:00''),
                (''id'', VStr ''65a1b2c3d4e5f60718293a4b'')]) \<and>
   db (snd (post_message ''T1'' hello id_a noon [] startup)) ''message'' =
     [new_document id_a noon (model_dump hello)]"
proof -
  have p: "ObjectId_of_str ''T1'' = Inl (Exception ''InvalidId'')"
    by (simp add: ObjectId_of_str_def)
  then have o: "oid ''T1'' = Inl (HTTPException 400 ''Invalid ID format'')"
    by (simp add: oid_def)
  have t1: "ticket_id hello = ''T1''" by (simp add: hello_def)
  have fa: "find_one (db startup ''message'') id_a = None"
    by (simp add: startup_fields find_one_Nil)
  obtain frame where f: "notification (Some (new_document id_a noon (model_dump hello))) = Inr frame"
    using notification_message by blast
  have q: "concat ([] :: schedule) = []" by simp
  note eq = post_message_quiet [OF t1 wf_id_a fa f q]
  have r: "fst (post_message ''T1'' hello id_a noon [] startup) =
     Inr (Some [(''ticket_id'', VStr ''T1''),
                (''sender_email'', VStr ''a@x.com''),
                (''content'', VStr ''hello''),
                (''type'', VStr ''text''),
                (''created_at'', VStr ''2024-01-12T12:00:00''),
                (''id'', VStr ''65a1b2c3d4e5f60718293a4b'')])"
    unfolding eq encode_doc_message
    by (simp add: hello_def noon_def id_a_def str_of_type_def)
  have d: "db (snd (post_message ''T1'' hello id_a noon [] startup)) ''message'' =
     [new_document id_a noon (model_dump hello)]"
    unfolding eq by (simp add: startup_fields)
  from p o r d show ?thesis by (simp add: startup_fields)
qed

text \<open>
  C3, amended. On the paths that look a ticket up by its identifier, \<^verbatim>\<open>get_ticket\<close> and
  \<^verbatim>\<open>update_ticket\<close> with at least one field to set, an identifier that the ObjectId
  constructor rejects is answered with status 400, "Invalid ID format", and the state is
  the one before the request.
\<close>

theorem invalid_ticket_id_rejected_on_ticket_paths:
  assumes "ObjectId_of_str tid = Inl e"
  shows "get_ticket tid s = Inl (HTTPException 400 ''Invalid ID format'') \<and>
         (updates_of payload \<noteq> [] \<longrightarrow>
            update_ticket tid payload now s = (Inl (HTTPException 400 ''Invalid ID format''), s))"
proof -
  from assms have "oid tid = Inl (HTTPException 400 ''Invalid ID format'')"
    by (simp add: oid_def)
  then show ?thesis
    by (simp add: get_ticket_def update_ticket_def Let_def)
qed

theorem invalid_ticket_id_rejected_on_ticket_paths_witness:
  "ObjectId_of_str ''T1'' = Inl (Exception ''InvalidId'') \<and>
   updates_of close_ticket \<noteq> [] \<and>
   get_ticket ''T1'' startup = Inl (HTTPException 400 ''Invalid ID format'') \<and>
   update_ticket ''T1'' close_ticket noon startup =
     (Inl (HTTPException 400 ''Invalid ID format''), startup)"
proof -
  have p: "ObjectId_of_str ''T1'' = Inl (Exception ''InvalidId'')"
    by (simp add: ObjectId_of_str_def)
  have u: "updates_of close_ticket \<noteq> []"
    by (simp add: updates_of_def close_ticket_def)
  from invalid_ticket_id_rejected_on_ticket_paths [OF p, of startup close_ticket noon] p u
  show ?thesis by blast
qed

text \<open>
  C4. For every sequence of Subscribe and Unsubscribe operations on one ticket, run from a
  state as the service reaches it, the ticket's list afterwards holds, each once, exactly
  the handles of the set obtained by tracking the operations: a Subscribe that returned
  adds its handle, an Unsubscribe removes it. No Unsubscribe raises, and unsubscribing a
  handle that is not listed leaves the state as it is.
\<close>

theorem registry_tracks_additions_and_removals:
  assumes "registry_inv s tid" and "run_ops tid ops s = (tr, s')"
  shows "set (listeners s' tid) = fold spec_track_set tr (set (listeners s tid)) \<and>
         distinct (listeners s' tid) \<and> map fst tr = ops \<and>
         (\<forall>w. (Unsubscribe w, False) \<notin> set tr) \<and>
         (\<forall>t w. w \<notin> set (listeners t tid) \<longrightarrow> disconnect tid w t = t)"
proof -
  have main: "registry_inv s tid \<Longrightarrow> run_ops tid ops s = (tr, s') \<Longrightarrow>
      registry_inv s' tid \<and>
      set (listeners s' tid) = fold spec_track_set tr (set (listeners s tid)) \<and>
      map fst tr = ops \<and> (\<forall>w. (Unsubscribe w, False) \<notin> set tr)"
  proof (induction ops arbitrary: s tr)
    case Nil
    then show ?case by simp
  next
    case (Cons op ops)
    obtain ok s1 where a: "apply_op tid op s = (ok, s1)" by (cases "apply_op tid op s")
    obtain tr1 s2 where r: "run_ops tid ops s1 = (tr1, s2)" by (cases "run_ops tid ops s1")
    from Cons.prems(2) a r have tr: "tr = (op, ok) # tr1" and s2: "s2 = s'" by simp_all
    note i = apply_op_inv [OF Cons.prems(1) a]
    from Cons.IH [OF _ r [unfolded s2]] i have ih: "registry_inv s' tid"
      "set (listeners s' tid) = fold spec_track_set tr1 (set (listeners s1 tid))"
      "map fst tr1 = ops" "\<forall>w. (Unsubscribe w, False) \<notin> set tr1"
      by blast+
    from i have "\<forall>w. (op, ok) \<noteq> (Unsubscribe w, False)" by auto
    with ih i show ?case by (auto simp: tr)
  qed
  from main [OF assms] disconnect_absent show ?thesis
    by (simp add: registry_inv_def)
qed

theorem registry_tracks_additions_and_removals_witness:
  "registry_inv startup ''T1'' \<and>
   run_ops ''T1'' [Subscribe 1, Subscribe 1, Unsubscribe 2, Unsubscribe 1] startup =
     ([(Subscribe 1, True), (Subscribe 1, False), (Unsubscribe 2, True), (Unsubscribe 1, True)],
      disconnect ''T1'' 1 one_listener) \<and>
   set (listeners (disconnect ''T1'' 1 one_listener) ''T1'') = {} \<and>
   disconnect ''T1'' 2 one_listener = one_listener"
proof -
  have i: "registry_inv startup ''T1''"
    by (simp add: registry_inv_def startup_fields)
  have c2: "connect ''T1'' 1 one_listener = Inl (Exception ''RuntimeError'')"
    unfolding connect_Inl_iff by (rule one_listener_fields(6))
  have n: "2 \<notin> set (listeners one_listener ''T1'')" by (simp add: one_listener_fields)
  have r: "run_ops ''T1'' [Subscribe 1, Subscribe 1, Unsubscribe 2, Unsubscribe 1] startup =
     ([(Subscribe 1, True), (Subscribe 1, False), (Unsubscribe 2, True), (Unsubscribe 1, True)],
      disconnect ''T1'' 1 one_listener)"
    by (simp add: connect_startup [unfolded One_nat_def] c2 [unfolded One_nat_def]
        disconnect_absent [OF n])
  from registry_tracks_additions_and_removals [OF i r]
  have "set (listeners (disconnect ''T1'' 1 one_listener) ''T1'') =
          fold spec_track_set
            [(Subscribe 1, True), (Subscribe 1, False), (Unsubscribe 2, True), (Unsubscribe 1, True)]
            (set (listeners startup ''T1''))"
    and "\<forall>t w. w \<notin> set (listeners t ''T1'') \<longrightarrow> disconnect ''T1'' w t = t"
    by blast+
  with n have "set (listeners (disconnect ''T1'' 1 one_listener) ''T1'') = {}"
    and "disconnect ''T1'' 2 one_listener = one_listener"
    by (simp_all add: startup_fields)
  with i r show ?thesis by blast
qed

text \<open>
  C5. The claim is that every subscriber present for two publishes E1, E2 observes E1
  before E2. The code does not, by the same defect as in C1: E1 is the run above, E2 is
  published after E1 has returned, with nothing else happening. Handle 2 is registered
  for both and its sends succeed, but all it observes is E2; handle 3 observes E1, E2.
\<close>

theorem subscriber_misses_first_publish:
  "2 \<in> set (listeners first_drops ''T1'') \<and>
   2 \<in> set (listeners (snd (post_message ''T1'' hello id_a noon [[(''T1'', Unsubscribe 1)]]
                              first_drops)) ''T1'') \<and>
   send_error first_drops 2 = None \<and>
   map Inr (received
             (snd (post_message ''T1'' (hello\<lparr>content := ''again''\<rparr>) id_b noon []
                (snd (post_message ''T1'' hello id_a noon [[(''T1'', Unsubscribe 1)]]
                        first_drops)))) 2) =
     [notification (Some (new_document id_b noon (model_dump (hello\<lparr>content := ''again''\<rparr>))))] \<and>
   map Inr (received
             (snd (post_message ''T1'' (hello\<lparr>content := ''again''\<rparr>) id_b noon []
                (snd (post_message ''T1'' hello id_a noon [[(''T1'', Unsubscribe 1)]]
                        first_drops)))) 3) =
     [notification (Some (new_document id_a noon (model_dump hello))),
      notification (Some (new_document id_b noon (model_dump (hello\<lparr>content := ''again''\<rparr>))))]"
proof -
  let ?d1 = "new_document id_a noon (model_dump hello)"
  let ?m2 = "hello\<lparr>content := ''again''\<rparr>"
  let ?d2 = "new_document id_b noon (model_dump ?m2)"
  obtain f1 where f1: "notification (Some ?d1) = Inr f1" using notification_message by blast
  obtain f2 where f2: "notification (Some ?d2) = Inr f2" using notification_message by blast
  from first_drops_publish [OF f1] obtain s1 where
    p1: "post_message ''T1'' hello id_a noon [[(''T1'', Unsubscribe 1)]] first_drops =
       (Inr (encode_doc (Some ?d1)), s1)"
    and w1: "wire s1 = [(3, f1)]" and l1: "listeners s1 ''T1'' = [2, 3]"
    and e1: "send_error s1 = send_error first_drops" and d1: "db s1 ''message'' = [?d1]"
    by blast
  have t2: "ticket_id ?m2 = ''T1''" by (simp add: hello_def)
  have fb: "find_one (db s1 ''message'') id_b = None"
    by (simp add: d1 find_one_def new_document_def id_a_def id_b_def)
  have q: "concat ([] :: schedule) = []" by simp
  have w2: "wire (snd (post_message ''T1'' ?m2 id_b noon [] s1)) = [(3, f1), (2, f2), (3, f2)]"
    unfolding post_message_quiet [OF t2 wf_id_b fb f2 q]
    by (simp add: w1 l1 e1 first_drops_fields)
  show ?thesis
    unfolding p1 using w2 l1 by (simp add: received_def first_drops_fields f1 f2)
qed

text \<open>
  C6. Everything a publish puts on the wire is one and the same frame: the JSON text of an
  object with exactly these fields: the ticket identifier, the sender email, the content,
  the type, the creation timestamp, the message identifier (as string, under \<^verbatim>\<open>id\<close>) and
  the discriminator \<^verbatim>\<open>event = new_message\<close>. The object serializes. With nothing
  happening on the event loop meanwhile, a subscriber of the ticket whose sends succeed
  receives that frame, once per registration.
\<close>

theorem notification_payload_fields:
  assumes "ticket_id msg = tid" and "wf_ObjectId new_id"
    and "find_one (db s ''message'') new_id = None"
    and "w \<in> set (listeners s tid)" and "send_error s w = None"
  shows "\<exists>frame r s' visited.
           post_message tid msg new_id now sched s = (r, s') \<and>
           json_dumps
             [(''ticket_id'', VStr tid),
              (''sender_email'', VStr (sender_email msg)),
              (''content'', VStr (content msg)),
              (''type'', VStr (str_of_type (type msg))),
              (''created_at'', VStr (isoformat now)),
              (''id'', VStr (hex new_id)),
              (''event'', VStr ''new_message'')] = Inr frame \<and>
           wire s' = wire s @ map (\<lambda>v. (v, frame)) visited \<and>
           0 < count_list (listeners s tid) w \<and>
           (concat sched = [] \<longrightarrow>
              received s' w = received s w @ replicate (count_list (listeners s tid) w) frame)"
proof -
  let ?d = "new_document new_id now (model_dump msg)"
  obtain frame where f: "notification (Some ?d) = Inr frame"
    using notification_message by blast
  from post_message_any_schedule [OF assms(1-3) f, of sched]
  obtain visited s' where
    p: "post_message tid msg new_id now sched s = (Inr (encode_doc (Some ?d)), s')"
    and v: "wire s' = wire s @ map (\<lambda>v. (v, frame)) visited"
    by blast
  from f have j: "json_dumps
             [(''ticket_id'', VStr tid),
              (''sender_email'', VStr (sender_email msg)),
              (''content'', VStr (content msg)),
              (''type'', VStr (str_of_type (type msg))),
              (''created_at'', VStr (isoformat now)),
              (''id'', VStr (hex new_id)),
              (''event'', VStr ''new_message'')] = Inr frame"
    by (simp add: notification_def encode_doc_message assms(1))
  have c: "0 < count_list (listeners s tid) w"
    using assms(4) by (rule count_list_pos)
  have q: "concat sched = [] \<longrightarrow>
      received s' w = received s w @ replicate (count_list (listeners s tid) w) frame"
  proof
    assume "concat sched = []"
    from p post_message_quiet [OF assms(1-3) f this]
    have "wire s' = wire s @ map (\<lambda>w. (w, frame))
                               (filter (\<lambda>w. send_error s w = None) (listeners s tid))"
      by auto
    from received_append [OF this, of w] assms(5)
    show "received s' w = received s w @ replicate (count_list (listeners s tid) w) frame"
      by (simp add: count_list_filter)
  qed
  show ?thesis
    by (intro exI [of _ frame] exI [of _ "Inr (encode_doc (Some ?d))"] exI [of _ s']
        exI [of _ visited] conjI p j v c q)
qed

theorem notification_payload_fields_witness:
  "ticket_id hello = ''T1'' \<and> wf_ObjectId id_a \<and>
   find_one (db one_listener ''message'') id_a = None \<and>
   1 \<in> set (listeners one_listener ''T1'') \<and> send_error one_listener 1 = None \<and>
   concat ([] :: schedule) = [] \<and>
   (\<exists>frame r s'.
      post_message ''T1'' hello id_a noon [] one_listener = (r, s') \<and>
      json_dumps
        [(''ticket_id'', VStr ''T1''),
         (''sender_email'', VStr ''a@x.com''),
         (''content'', VStr ''hello''),
         (''type'', VStr ''text''),
         (''created_at'', VStr ''2024-01-12T12:00:00''),
         (''id'', VStr ''65a1b2c3d4e5f60718293a4b''),
         (''event'', VStr ''new_message'')] = Inr frame \<and>
      received s' 1 = [frame])"
proof -
  have t1: "ticket_id hello = ''T1''" by (simp add: hello_def)
  have fa: "find_one (db one_listener ''message'') id_a = None"
    by (simp add: one_listener_fields find_one_Nil)
  have m: "1 \<in> set (listeners one_listener ''T1'')" by (simp add: one_listener_fields)
  have ok: "send_error one_listener 1 = None" by (simp add: one_listener_fields)
  have r0: "received one_listener 1 = []" by (simp add: received_def one_listener_fields)
  have q: "concat ([] :: schedule) = []" by simp
  from notification_payload_fields [OF t1 wf_id_a fa m ok, of noon "[]"]
  obtain frame r s' where
    p: "post_message ''T1'' hello id_a noon [] one_listener = (r, s')"
    and j: "json_dumps
             [(''ticket_id'', VStr ''T1''),
              (''sender_email'', VStr (sender_email hello)),
              (''content'', VStr (content hello)),
              (''type'', VStr (str_of_type (type hello))),
              (''created_at'', VStr (isoformat noon)),
              (''id'', VStr (hex id_a)),
              (''event'', VStr ''new_message'')] = Inr frame"
    and rc: "concat ([] :: schedule) = [] \<longrightarrow> received s' 1 =
               received one_listener 1 @ replicate (count_list (listeners one_listener ''T1'') 1) frame"
    by (elim exE conjE) (rule that)
  from j have j': "json_dumps
        [(''ticket_id'', VStr ''T1''),
         (''sender_email'', VStr ''a@x.com''),
         (''content'', VStr ''hello''),
         (''type'', VStr ''text''),
         (''created_at'', VStr ''2024-01-12T12:00:00''),
         (''id'', VStr ''65a1b2c3d4e5f60718293a4b''),
         (''event'', VStr ''new_message'')] = Inr frame"
    by (simp add: hello_def noon_def id_a_def str_of_type_def)
  from rc q have "received s' 1 =
      received one_listener 1 @ replicate (count_list (listeners one_listener ''T1'') 1) frame"
    by blast
  then have "received s' 1 = [frame]"
    unfolding r0 one_listener_fields by simp
  with p j' have "\<exists>frame r s'.
      post_message ''T1'' hello id_a noon [] one_listener = (r, s') \<and>
      json_dumps
        [(''ticket_id'', VStr ''T1''),
         (''sender_email'', VStr ''a@x.com''),
         (''content'', VStr ''hello''),
         (''type'', VStr ''text''),
         (''created_at'', VStr ''2024-01-12T12:00:00''),
         (''id'', VStr ''65a1b2c3d4e5f60718293a4b''),
         (''event'', VStr ''new_message'')] = Inr frame \<and>
      received s' 1 = [frame]"
    by blast
  with t1 wf_id_a fa m ok q show ?thesis by blast
qed

text \<open>
  C7. A message-create request whose body names another ticket than the request path is
  rejected with status 400 before anything is persisted: whatever happens on the event
  loop meanwhile, the state, and with it the message collection, is the one before the
  request, and nothing is sent.
\<close>

theorem post_message_mismatch_rejected:
  assumes "ticket_id msg \<noteq> tid"
  shows "post_message tid msg new_id now sched s =
           (Inl (HTTPException 400 ''ticket_id mismatch''), s)"
  using assms by (simp add: post_message_def)

theorem post_message_mismatch_rejected_witness:
  "ticket_id hello \<noteq> ''T2'' \<and>
   post_message ''T2'' hello id_a noon [] startup =
     (Inl (HTTPException 400 ''ticket_id mismatch''), startup)"
proof -
  have h: "ticket_id hello \<noteq> ''T2''" by (simp add: hello_def)
  from post_message_mismatch_rejected [OF h] h show ?thesis by blast
qed

text \<open>
  C8. On the ticket stream, every inbound text frame is sent back verbatim on the same
  connection: with the handshake and the sends succeeding, the frames received before the
  loop ends are appended to the wire, in order, addressed to that connection. Whatever
  arrives and whatever fails, the collections of the store are left as they were: no
  message record is created.
\<close>

theorem ticket_ws_echoes_without_persisting:
  "(accept_error s w = None \<and> send_error s w = None \<and>
    (rest = [] \<or> (\<exists>e more. rest = Raise e # more)) \<longrightarrow>
      wire (snd (ticket_ws w tid (map Frame fs @ rest) s)) = wire s @ map (Pair w) fs \<and>
      received (snd (ticket_ws w tid (map Frame fs @ rest) s)) w = received s w @ fs) \<and>
   db (snd (ticket_ws w tid events s)) = db s"
proof (intro conjI impI)
  assume a: "accept_error s w = None \<and> send_error s w = None \<and>
    (rest = [] \<or> (\<exists>e more. rest = Raise e # more))"
  then obtain s1 where c: "connect tid w s = Inr s1"
    by (simp add: connect_Inr_iff)
  note k = connect_other_fields [OF c]
  let ?t = "s1\<lparr>wire := wire s1 @ map (Pair w) fs\<rparr>"
  from a k have "send_error s1 w = None" by simp
  then have l: "receive_loop w (map Frame fs @ r) s1 = receive_loop w r ?t" for r
    by (rule receive_loop_frames)
  from a have "wire (snd (ticket_ws w tid (map Frame fs @ rest) s)) = wire ?t"
  proof (elim conjE disjE exE)
    assume "rest = []"
    then show ?thesis using l [of "[]"] by (simp add: ticket_ws_def c)
  next
    fix e more
    assume "rest = Raise e # more"
    then show ?thesis
      by (cases e) (simp_all add: ticket_ws_def c l disconnect_other_fields)
  qed
  then show w: "wire (snd (ticket_ws w tid (map Frame fs @ rest) s)) = wire s @ map (Pair w) fs"
    using k by simp
  show "received (snd (ticket_ws w tid (map Frame fs @ rest) s)) w = received s w @ fs"
    using w by (rule received_echo)
next
  show "db (snd (ticket_ws w tid events s)) = db s" by (rule ticket_ws_db)
qed

theorem ticket_ws_echoes_without_persisting_witness:
  "accept_error startup 1 = None \<and> send_error startup 1 = None \<and>
   wire (snd (ticket_ws 1 ''T1'' [Frame ''ping''] startup)) = [(1, ''ping'')] \<and>
   received (snd (ticket_ws 1 ''T1'' [Frame ''ping''] startup)) 1 = [''ping''] \<and>
   db (snd (ticket_ws 1 ''T1'' [Frame ''ping''] startup)) ''message'' = []"
proof -
  have a: "accept_error startup 1 = None" and b: "send_error startup 1 = None"
    by (simp_all add: startup_fields)
  from ticket_ws_echoes_without_persisting
    [where s = startup and w = 1 and rest = "[]" and fs = "[''ping'']" and tid = "''T1''"
       and events = "[Frame ''ping'']"]
  have "wire (snd (ticket_ws 1 ''T1'' [Frame ''ping''] startup)) = wire startup @ [(1, ''ping'')]"
    and "received (snd (ticket_ws 1 ''T1'' [Frame ''ping''] startup)) 1 = received startup 1 @ [''ping'']"
    and "db (snd (ticket_ws 1 ''T1'' [Frame ''ping''] startup)) = db startup"
    using a b by simp_all
  then show ?thesis
    using a b by (simp add: startup_fields received_startup)
qed

text \<open>
  C9. When the receive loop of a registered connection ends with \<^verbatim>\<open>WebSocketDisconnect\<close>,
  whatever the close code, the handler returns normally after \<^verbatim>\<open>disconnect\<close>: the
  registration made by this connection is removed (the ticket's list is again the one
  before the connection, when the handle was not in it already), the lists of other
  tickets are untouched, and no other connection has been sent anything.
\<close>

theorem ticket_ws_disconnect_unsubscribes:
  assumes "connect tid w s = Inr s1"
    and "receive_loop w events s1 = (Raised (WebSocketDisconnect code), s2)"
  shows "ticket_ws w tid events s = (Returned, disconnect tid w s2) \<and>
         mset (listeners (disconnect tid w s2) tid) = mset (listeners s tid) \<and>
         (w \<notin> set (listeners s tid) \<longrightarrow>
            listeners (disconnect tid w s2) tid = listeners s tid) \<and>
         (\<forall>t. t \<noteq> tid \<longrightarrow> listeners (disconnect tid w s2) t = listeners s t) \<and>
         (\<forall>v. v \<noteq> w \<longrightarrow> received (disconnect tid w s2) v = received s v)"
proof -
  from receive_loop_keeps [OF assms(2)] obtain fs where
    ac: "active_connections s2 = active_connections s1"
    and wr: "wire s2 = wire s1 @ map (Pair w) fs"
    by blast
  from ac have l2: "listeners s2 t = listeners s1 t" for t by (simp add: listeners_def)
  note l1 = listeners_connect [OF assms(1)]
  have r: "ticket_ws w tid events s = (Returned, disconnect tid w s2)"
    by (simp add: ticket_ws_def assms)
  have ld: "listeners (disconnect tid w s2) tid = remove1 w (listeners s tid @ [w])"
    by (simp add: listeners_disconnect l2 l1)
  have m: "mset (listeners (disconnect tid w s2) tid) = mset (listeners s tid)"
    unfolding ld by simp
  have f: "w \<notin> set (listeners s tid) \<longrightarrow> listeners (disconnect tid w s2) tid = listeners s tid"
    unfolding ld by (simp add: remove1_append)
  have o: "\<forall>t. t \<noteq> tid \<longrightarrow> listeners (disconnect tid w s2) t = listeners s t"
    by (simp add: listeners_disconnect l2 l1)
  have "wire (disconnect tid w s2) = wire s @ map (Pair w) fs"
    using wr connect_other_fields [OF assms(1)] disconnect_other_fields [of tid w s2] by simp
  then have q: "\<forall>v. v \<noteq> w \<longrightarrow> received (disconnect tid w s2) v = received s v"
    using received_others by blast
  from r m f o q show ?thesis by blast
qed

theorem ticket_ws_disconnect_unsubscribes_witness:
  "(\<exists>s1 s2.
      connect ''T1'' 4 three_listeners = Inr s1 \<and>
      receive_loop 4 [Frame ''ping'', Raise (WebSocketDisconnect 1006)] s1 =
        (Raised (WebSocketDisconnect 1006), s2)) \<and>
   fst (ticket_ws 4 ''T1'' [Frame ''ping'', Raise (WebSocketDisconnect 1006)] three_listeners) =
     Returned \<and>
   listeners (snd (ticket_ws 4 ''T1'' [Frame ''ping'', Raise (WebSocketDisconnect 1006)]
                     three_listeners)) ''T1'' = [1, 2, 3] \<and>
   received (snd (ticket_ws 4 ''T1'' [Frame ''ping'', Raise (WebSocketDisconnect 1006)]
                     three_listeners)) 1 = []"
proof -
  let ?ev = "[Frame ''ping'', Raise (WebSocketDisconnect 1006)]"
  obtain s1 where c: "connect ''T1'' 4 three_listeners = Inr s1"
    by (simp add: connect_Inr_iff three_listeners_fields)
  from connect_other_fields [OF c] have "send_error s1 4 = None"
    by (simp add: three_listeners_fields)
  then have l: "receive_loop 4 ?ev s1 =
      (Raised (WebSocketDisconnect 1006), s1\<lparr>wire := wire s1 @ [(4, ''ping'')]\<rparr>)"
    by (simp add: send_text_def)
  have n: "4 \<notin> set (listeners three_listeners ''T1'')" "(1::nat) \<noteq> 4"
    by (simp_all add: three_listeners_fields)
  have r0: "received three_listeners 1 = []"
    by (simp add: received_def three_listeners_fields)
  let ?s2 = "s1\<lparr>wire := wire s1 @ [(4, ''ping'')]\<rparr>"
  from ticket_ws_disconnect_unsubscribes [OF c l]
  have "ticket_ws 4 ''T1'' ?ev three_listeners = (Returned, disconnect ''T1'' 4 ?s2)"
    and "4 \<notin> set (listeners three_listeners ''T1'') \<longrightarrow>
           listeners (disconnect ''T1'' 4 ?s2) ''T1'' = listeners three_listeners ''T1''"
    and "\<forall>v. v \<noteq> 4 \<longrightarrow> received (disconnect ''T1'' 4 ?s2) v = received three_listeners v"
    by blast+
  with n r0 have "fst (ticket_ws 4 ''T1'' ?ev three_listeners) = Returned"
    and "listeners (snd (ticket_ws 4 ''T1'' ?ev three_listeners)) ''T1'' = [1, 2, 3]"
    and "received (snd (ticket_ws 4 ''T1'' ?ev three_listeners)) 1 = []"
    by (simp_all add: three_listeners_fields)
  with c l show ?thesis by blast
qed

text \<open>
  C10, as stated, fails: "subscribing the same connection handle twice to the same ticket
  registers it twice". The second \<^verbatim>\<open>connect\<close> of handle 1 raises at the handshake, before
  the append, and the ticket's list holds the handle once.
\<close>

theorem second_subscribe_registers_nothing:
  "run_ops ''T1'' [Subscribe 1, Subscribe 1] startup =
     ([(Subscribe 1, True), (Subscribe 1, False)], one_listener) \<and>
   connect ''T1'' 1 one_listener = Inl (Exception ''RuntimeError'') \<and>
   listeners one_listener ''T1'' = [1]"
proof -
  have c2: "connect ''T1'' 1 one_listener = Inl (Exception ''RuntimeError'')"
    unfolding connect_Inl_iff by (rule one_listener_fields(6))
  then show ?thesis
    by (simp add: connect_startup [unfolded One_nat_def] one_listener_fields)
qed

text \<open>
  C10, amended. The registry keeps an ordered list per ticket and \<^verbatim>\<open>connect\<close> appends to
  it without a membership test; but a handle is accepted once, so a second Subscribe of the
  same handle raises and registers nothing. In a state as the service reaches it, a handle
  that subscribes is listed exactly once, at the end of the ticket's list, and a single
  Unsubscribe removes it and restores the list.
\<close>

theorem handle_registered_at_most_once:
  assumes "registry_inv s tid" and "connect tid w s = Inr s1"
  shows "listeners s1 tid = listeners s tid @ [w] \<and>
         count_list (listeners s1 tid) w = 1 \<and>
         connect tid w s1 = Inl (Exception ''RuntimeError'') \<and>
         registry_inv s1 tid \<and>
         listeners (disconnect tid w s1) tid = listeners s tid \<and>
         w \<notin> set (listeners (disconnect tid w s1) tid)"
proof -
  have a: "apply_op tid (Subscribe w) s = (True, s1)" using assms(2) by simp
  note i = apply_op_inv [OF assms(1) a]
  from assms(2) have ae: "accept_error s w = None" by (simp add: connect_Inr_iff)
  from assms(1) have "\<forall>v \<in> set (listeners s tid). accept_error s v \<noteq> None"
    by (simp add: registry_inv_def list_all_iff)
  with ae have n: "w \<notin> set (listeners s tid)" by auto
  have l: "listeners s1 tid = listeners s tid @ [w]"
    by (simp add: listeners_connect [OF assms(2)])
  have c: "count_list (listeners s1 tid) w = 1"
    using n by (simp add: l count_list_0_iff)
  have r: "connect tid w s1 = Inl (Exception ''RuntimeError'')"
    using connect_other_fields [OF assms(2)] by (simp add: connect_Inl_iff)
  have d: "listeners (disconnect tid w s1) tid = listeners s tid"
    using n by (simp add: listeners_disconnect l remove1_append)
  from l c r i d n show ?thesis by simp
qed

theorem handle_registered_at_most_once_witness:
  "registry_inv startup ''T1'' \<and> connect ''T1'' 1 startup = Inr one_listener \<and>
   listeners one_listener ''T1'' = [1] \<and>
   connect ''T1'' 1 one_listener = Inl (Exception ''RuntimeError'') \<and>
   listeners (disconnect ''T1'' 1 one_listener) ''T1'' = []"
proof -
  have i: "registry_inv startup ''T1''"
    by (simp add: registry_inv_def startup_fields)
  from handle_registered_at_most_once [OF i connect_startup] i connect_startup
  show ?thesis by (simp add: startup_fields)
qed

end
